theory Spec2Isabelle
  imports Main "HOL-Library.Word" "HOL-Library.Char_ord" "HOL-Library.List_Lexorder"
    "HOL-Library.AList" "HOL-Library.Sublist"
begin

unbundle bit_operations_syntax

section \<open>Strings, bytes and the header collection\<close>

text \<open>
  A Go \<open>string\<close> is a sequence of bytes and is modelled as \<open>string\<close> (a list of 8-bit
  characters); a \<open>[]byte\<close> is a list of 8-bit words. Writing a string to a byte sink
  (\<open>WriteString\<close>, \<open>[]byte(s)\<close>) is \<open>bytes_of\<close>.
\<close>

type_synonym byte = "8 word"

definition bytes_of :: "string \<Rightarrow> byte list" where
  "bytes_of s = map of_char s"

definition string_of :: "byte list \<Rightarrow> string" where
  "string_of bs = map (\<lambda>b. char_of (unat b)) bs"

subsection \<open>The constants of grpcweb.go\<close>

definition ContentTypeGRPC :: string where
  "ContentTypeGRPC = ''application/grpc''"

definition ContentTypeGRPCWeb :: string where
  "ContentTypeGRPCWeb = ''application/grpc-web''"

definition ContentTypeGRPCWebProto :: string where
  "ContentTypeGRPCWebProto = ''application/grpc-web+proto''"

definition ContentTypeGRPCWebText :: string where
  "ContentTypeGRPCWebText = ''application/grpc-web-text''"

definition ContentTypeGRPCWebTextProto :: string where
  "ContentTypeGRPCWebTextProto = ''application/grpc-web-text+proto''"

definition headerContentType :: string where
  "headerContentType = ''content-type''"

definition headerContentLength :: string where
  "headerContentLength = ''content-length''"

definition headerTE :: string where
  "headerTE = ''te''"

definition headerGRPCAcceptEncoding :: string where
  "headerGRPCAcceptEncoding = ''grpc-accept-encoding''"

definition headerAccept :: string where
  "headerAccept = ''accept''"

definition headerTrailer :: string where
  "headerTrailer = ''trailer''"

subsection \<open>Go's \<open>net/http.Header\<close>\<close>

text \<open>
  \<open>http.Header\<close> is a \<open>map[string][]string\<close>. It is modelled as an association list
  from keys to value lists, looked up with \<open>map_of\<close>. The order of the list stands for
  the order in which a \<open>range\<close> over the map happens to visit the keys, which Go leaves
  unspecified; a statement proved for every list holds for every iteration order. A
  \<open>nil\<close> map reads like the empty one.

  \<open>Get\<close>, \<open>Set\<close>, \<open>Add\<close> and \<open>Del\<close> first canonicalise the key with
  \<open>textproto.CanonicalMIMEHeaderKey\<close>: a key holding a byte that is not a token
  character is left as it is; otherwise the first letter and every letter after a hyphen
  is made upper case and every other letter lower case.
\<close>

type_synonym header = "(string \<times> string list) list"

definition isLowerByte :: "char \<Rightarrow> bool" where
  "isLowerByte c = (CHR ''a'' \<le> c \<and> c \<le> CHR ''z'')"

definition isUpperByte :: "char \<Rightarrow> bool" where
  "isUpperByte c = (CHR ''A'' \<le> c \<and> c \<le> CHR ''Z'')"

definition isDigitByte :: "char \<Rightarrow> bool" where
  "isDigitByte c = (CHR ''0'' \<le> c \<and> c \<le> CHR ''9'')"

definition validHeaderFieldByte :: "char \<Rightarrow> bool" where
  "validHeaderFieldByte c =
     (isLowerByte c \<or> isUpperByte c \<or> isDigitByte c \<or>
      List.member (CHR 0x27 # ''!#$%&*+-.^_`|~'') c)"

definition toUpperByte :: "char \<Rightarrow> char" where
  "toUpperByte c = char_of (of_char c - (32::nat))"

definition toLowerByte :: "char \<Rightarrow> char" where
  "toLowerByte c = char_of (of_char c + (32::nat))"

fun canonicalise :: "bool \<Rightarrow> string \<Rightarrow> string" where
  "canonicalise upper [] = []"
| "canonicalise upper (c # cs) =
     (let c' = (if upper \<and> isLowerByte c then toUpperByte c
                else if \<not> upper \<and> isUpperByte c then toLowerByte c
                else c)
      in c' # canonicalise (c' = CHR ''-'') cs)"

definition CanonicalMIMEHeaderKey :: "string \<Rightarrow> string" where
  "CanonicalMIMEHeaderKey s =
     (if list_all validHeaderFieldByte s then canonicalise True s else s)"

definition first_value :: "string list option \<Rightarrow> string" where
  "first_value r = (case r of None \<Rightarrow> [] | Some [] \<Rightarrow> [] | Some (v # _) \<Rightarrow> v)"

definition Get :: "header \<Rightarrow> string \<Rightarrow> string" where
  "Get h key = first_value (map_of h (CanonicalMIMEHeaderKey key))"

definition Set :: "header \<Rightarrow> string \<Rightarrow> string \<Rightarrow> header" where
  "Set h key v = AList.update (CanonicalMIMEHeaderKey key) [v] h"

definition Add :: "header \<Rightarrow> string \<Rightarrow> string \<Rightarrow> header" where
  "Add h key v =
     (let k = CanonicalMIMEHeaderKey key
      in AList.update k ((case map_of h k of None \<Rightarrow> [] | Some vs \<Rightarrow> vs) @ [v]) h)"

definition Del :: "header \<Rightarrow> string \<Rightarrow> header" where
  "Del h key = AList.delete (CanonicalMIMEHeaderKey key) h"

section \<open>The request and its classification\<close>

text \<open>
  The request body is an \<open>io.ReadCloser\<close>. \<open>Source bs closed\<close> is the transport's
  own body: the bytes it will deliver and whether \<open>Close\<close> has been called on it.
  \<open>Base64Body b\<close> is \<open>bodyCloser{base64.NewDecoder(base64.StdEncoding, b), b}\<close>: both
  fields of the Go struct refer to the one stream \<open>b\<close>.
\<close>

datatype body = Source "byte list" bool | Base64Body body

record request =
  ProtoMajor :: int
  ProtoMinor :: int
  Header :: header
  Body :: body

definition HasPrefix :: "string \<Rightarrow> string \<Rightarrow> bool" where
  "HasPrefix s p = (length p \<le> length s \<and> take (length p) s = p)"

definition IsGRPCWebRequest :: "request \<Rightarrow> bool" where
  "IsGRPCWebRequest req =
     (let ct = Get (Header req) headerContentType
      in if ct = ContentTypeGRPCWeb \<or> ct = ContentTypeGRPCWebProto \<or>
            ct = ContentTypeGRPCWebText \<or> ct = ContentTypeGRPCWebTextProto
         then True
         else False)"

definition IsGRPCRequest :: "request \<Rightarrow> bool" where
  "IsGRPCRequest req =
     (ProtoMajor req = 2 \<and> HasPrefix (Get (Header req) headerContentType) ContentTypeGRPC)"


section \<open>Go's \<open>encoding/base64\<close>, standard encoding\<close>

text \<open>
  \<open>base64.StdEncoding\<close> is the RFC 4648 alphabet with \<open>=\<close> padding. A group of three
  bytes is packed into 24 bits (Go's \<open>uint\<close>, here a 32-bit word: nothing overflows) and
  cut into four 6-bit indices into the alphabet.
\<close>

definition encodeStd :: string where
  "encodeStd = ''ABCDEFGHIJKLMNOPQRSTUVWXYZabcdefghijklmnopqrstuvwxyz0123456789+/''"

definition padChar :: byte where
  "padChar = of_char (CHR ''='')"

definition encode6 :: "32 word \<Rightarrow> byte" where
  "encode6 v = of_char (encodeStd ! unat (v AND 0x3F))"

definition pack3 :: "byte \<Rightarrow> byte \<Rightarrow> byte \<Rightarrow> 32 word" where
  "pack3 a b c = push_bit 16 (ucast a) OR push_bit 8 (ucast b) OR ucast c"

text \<open>
  \<open>Encoding.Encode\<close>: whole groups of three bytes give four characters each; a rest of
  one or two bytes gives two or three characters and is padded to four.
\<close>

fun Encode :: "byte list \<Rightarrow> byte list" where
  "Encode (a # b # c # rest) =
     (let val = pack3 a b c
      in [encode6 (drop_bit 18 val), encode6 (drop_bit 12 val),
          encode6 (drop_bit 6 val), encode6 val] @ Encode rest)"
| "Encode [a, b] =
     (let val = pack3 a b 0
      in [encode6 (drop_bit 18 val), encode6 (drop_bit 12 val),
          encode6 (drop_bit 6 val), padChar])"
| "Encode [a] =
     (let val = pack3 a 0 0
      in [encode6 (drop_bit 18 val), encode6 (drop_bit 12 val), padChar, padChar])"
| "Encode [] = []"

text \<open>
  The stream encoder of \<open>base64.NewEncoder\<close> keeps the bytes that do not yet fill a
  group (\<open>buf\<close>, at most two). \<open>Write\<close> fills the pending group from the new bytes,
  encodes every complete group, passes the characters on and keeps the rest; it returns
  the characters passed on and the new \<open>buf\<close>. Only \<open>Close\<close> encodes a pending rest,
  with its padding.
\<close>

definition encoder_Write :: "byte list \<Rightarrow> byte list \<Rightarrow> byte list \<times> byte list" where
  "encoder_Write buf p =
     (let q = buf @ p; n = length q - length q mod 3
      in (Encode (take n q), drop n q))"

definition encoder_Close :: "byte list \<Rightarrow> byte list" where
  "encoder_Close buf = (if buf = [] then [] else Encode buf)"

text \<open>
  A stream encoder used from start to finish: the chunks are written one after the other,
  then the encoder is closed. \<open>encode_stream buf chunks\<close> is everything it passes on,
  starting with \<open>buf\<close> held back.
\<close>

fun encode_stream :: "byte list \<Rightarrow> byte list list \<Rightarrow> byte list" where
  "encode_stream buf [] = encoder_Close buf"
| "encode_stream buf (p # ps) =
     (case encoder_Write buf p of (out, buf') \<Rightarrow> out @ encode_stream buf' ps)"

fun index_of :: "'a \<Rightarrow> 'a list \<Rightarrow> nat option" where
  "index_of x [] = None"
| "index_of x (y # ys) = (if x = y then Some 0 else map_option Suc (index_of x ys))"

definition decodeMap :: "byte \<Rightarrow> 32 word option" where
  "decodeMap b = map_option of_nat (index_of (char_of (unat b)) encodeStd)"

definition unpack :: "32 word \<Rightarrow> 32 word \<Rightarrow> 32 word \<Rightarrow> 32 word \<Rightarrow> byte list" where
  "unpack d0 d1 d2 d3 =
     (let val = push_bit 18 d0 OR push_bit 12 d1 OR push_bit 6 d2 OR d3
      in [ucast (drop_bit 16 val), ucast (drop_bit 8 val), ucast val])"

datatype read_error = ErrUnexpectedEOF | CorruptInputError

text \<open>
  \<open>Encoding.Decode\<close> on a slice without line breaks: four characters at a time, with
  padding accepted in a group that ends the slice. It gives the bytes decoded and the
  error, if any: a character outside the alphabet, misplaced padding, data after a padded
  group, or a slice that ends inside a group is a \<open>CorruptInputError\<close>, after the bytes
  decoded before it.
\<close>

fun decode_groups :: "byte list \<Rightarrow> byte list \<times> read_error option" where
  "decode_groups (a # b # c # d # rest) =
     (case (decodeMap a, decodeMap b) of
        (Some d0, Some d1) \<Rightarrow>
          (case (decodeMap c, decodeMap d) of
             (Some d2, Some d3) \<Rightarrow>
               (case decode_groups rest of (out, e) \<Rightarrow> (unpack d0 d1 d2 d3 @ out, e))
           | (Some d2, None) \<Rightarrow>
               (if d = padChar
                then (take 2 (unpack d0 d1 d2 0),
                      if rest = [] then None else Some CorruptInputError)
                else ([], Some CorruptInputError))
           | (None, _) \<Rightarrow>
               (if c = padChar \<and> d = padChar
                then (take 1 (unpack d0 d1 0 0),
                      if rest = [] then None else Some CorruptInputError)
                else ([], Some CorruptInputError)))
      | _ \<Rightarrow> ([], Some CorruptInputError))"
| "decode_groups [] = ([], None)"
| "decode_groups _ = ([], Some CorruptInputError)"

definition isNewline :: "byte \<Rightarrow> bool" where
  "isNewline b = (b = 0x0D \<or> b = 0x0A)"

text \<open>
  The stream decoder of \<open>base64.NewDecoder\<close>. Its reader drops carriage returns and line
  feeds. Each \<open>Read\<close> fills the decoder's buffer of 1024 bytes until it holds at least
  four characters, decodes the whole groups in it with \<open>Encoding.Decode\<close> and keeps the
  rest for the next \<open>Read\<close>. How many characters a refill brings depends on the buffer
  of the caller and on what the stream below delivers, so the input is decoded in slices
  of 1 to 256 groups whose sizes the decoder does not choose. The schedule \<open>ns\<close> gives
  the number of groups wanted for each slice in turn (at least one and at most 256 are
  taken, and never more than the input has; 256 when the schedule has run out). Padding is
  therefore checked within a slice only: data after a padded group is a
  \<open>CorruptInputError\<close> when both are in one slice and is decoded when the padded group
  ends its slice. An error ends the stream, after the bytes decoded before it. An input
  that ends inside a group ends with \<open>io.ErrUnexpectedEOF\<close>; \<open>None\<close> is a clean end
  of input.
\<close>

definition chunk_size :: "nat list \<Rightarrow> byte list \<Rightarrow> nat" where
  "chunk_size ns src =
     4 * min (length src div 4) (max 1 (min (case ns of [] \<Rightarrow> 256 | n # _ \<Rightarrow> n) 256))"

function decoder_Read :: "nat list \<Rightarrow> byte list \<Rightarrow> byte list \<times> read_error option" where
  "decoder_Read ns src =
     (if length src < 4 then ([], if src = [] then None else Some ErrUnexpectedEOF)
      else (case decode_groups (take (chunk_size ns src) src) of
              (out, Some e) \<Rightarrow> (out, Some e)
            | (out, None) \<Rightarrow>
                (case decoder_Read (tl ns) (drop (chunk_size ns src) src) of
                   (out', e) \<Rightarrow> (out @ out', e))))"
  by pat_completeness auto
termination
  by (relation "measure (\<lambda>(ns, src). length src)") (auto simp: chunk_size_def)

declare decoder_Read.simps [simp del]

definition decoder_ReadAll :: "nat list \<Rightarrow> byte list \<Rightarrow> byte list \<times> read_error option" where
  "decoder_ReadAll ns src = decoder_Read ns (filter (\<lambda>b. \<not> isNewline b) src)"

text \<open>
  Reading a body to its end, with one schedule for each decoder in it, the outermost
  first. The transport's own body delivers its bytes; a decoding body decodes what the
  stream below it delivers, and passes an error of that stream on once the groups read
  before it are decoded.
\<close>

fun ReadAll :: "nat list list \<Rightarrow> body \<Rightarrow> byte list \<times> read_error option" where
  "ReadAll nss (Source bs closed) = (bs, None)"
| "ReadAll nss (Base64Body b) =
     (case ReadAll (tl nss) b of
        (bs, None) \<Rightarrow> decoder_ReadAll (case nss of [] \<Rightarrow> [] | ns # _ \<Rightarrow> ns) bs
      | (bs, Some e) \<Rightarrow>
          (case decoder_ReadAll (case nss of [] \<Rightarrow> [] | ns # _ \<Rightarrow> ns) bs of
             (out, Some CorruptInputError) \<Rightarrow> (out, Some CorruptInputError)
           | (out, _) \<Rightarrow> (out, Some e)))"

text \<open>\<open>bodyCloser.Close\<close> calls \<open>Close\<close> on the stream it was built from.\<close>

fun Close :: "body \<Rightarrow> body" where
  "Close (Source bs closed) = Source bs True"
| "Close (Base64Body b) = Base64Body (Close b)"

fun is_closed :: "body \<Rightarrow> bool" where
  "is_closed (Source bs closed) = closed"
| "is_closed (Base64Body b) = is_closed b"

section \<open>The response writer\<close>

text \<open>
  The \<open>http.ResponseWriter\<close> of the transport, as far as the bridge uses it: the header
  map that \<open>Header()\<close> returns, the bytes written to it so far, the status codes passed
  to \<open>WriteHeader\<close> and the number of \<open>Flush\<close> calls. Its writes do not fail, and it
  has no \<open>Close\<close> method (it is not an \<open>io.WriteCloser\<close>).
\<close>

record response =
  resp_header :: header
  resp_body :: "byte list"
  resp_status :: "int list"
  resp_flushes :: nat

definition ResponseWriter_Write :: "byte list \<Rightarrow> response \<Rightarrow> response" where
  "ResponseWriter_Write p r = r\<lparr>resp_body := resp_body r @ p\<rparr>"

definition ResponseWriter_WriteHeader :: "int \<Rightarrow> response \<Rightarrow> response" where
  "ResponseWriter_WriteHeader statusCode r = r\<lparr>resp_status := resp_status r @ [statusCode]\<rparr>"

definition ResponseWriter_Flush :: "response \<Rightarrow> response" where
  "ResponseWriter_Flush r = r\<lparr>resp_flushes := Suc (resp_flushes r)\<rparr>"

text \<open>
  \<open>gRPCWebResponseWriter\<close>. The field \<open>encoder\<close> is \<open>None\<close> for Go's \<open>nil\<close>,
  \<open>Some Wrapped\<close> when it is the wrapped writer itself and \<open>Some (Base64Encoder buf)\<close>
  when it is a base64 stream encoder on the wrapped writer, with \<open>buf\<close> the bytes that
  encoder holds back.
\<close>

datatype encoder = Wrapped | Base64Encoder "byte list"

record gRPCWebResponseWriter =
  wrapped :: response
  encoder :: "encoder option"
  contentType :: string

definition set_header :: "(header \<Rightarrow> header) \<Rightarrow> gRPCWebResponseWriter \<Rightarrow> gRPCWebResponseWriter" where
  "set_header f w = w\<lparr>wrapped := (wrapped w)\<lparr>resp_header := f (resp_header (wrapped w))\<rparr>\<rparr>"

definition install_encoder :: "gRPCWebResponseWriter \<Rightarrow> gRPCWebResponseWriter" where
  "install_encoder w =
     (if encoder w = None
      then (set_header (\<lambda>h. Set h headerContentType (contentType w)) w)
             \<lparr>encoder := Some (if contentType w = ContentTypeGRPCWebTextProto
                                then Base64Encoder [] else Wrapped)\<rparr>
      else w)"

definition Write :: "byte list \<Rightarrow> gRPCWebResponseWriter \<Rightarrow> gRPCWebResponseWriter" where
  "Write p w =
     (let w1 = install_encoder w
      in case encoder w1 of
           Some (Base64Encoder buf) \<Rightarrow>
             (case encoder_Write buf p of
                (out, buf') \<Rightarrow>
                  w1\<lparr>wrapped := ResponseWriter_Write out (wrapped w1),
                     encoder := Some (Base64Encoder buf')\<rparr>)
         | _ \<Rightarrow> w1\<lparr>wrapped := ResponseWriter_Write p (wrapped w1)\<rparr>)"

definition WriteHeader :: "int \<Rightarrow> gRPCWebResponseWriter \<Rightarrow> gRPCWebResponseWriter" where
  "WriteHeader statusCode w =
     (let w1 = set_header (\<lambda>h. Set h headerContentType (contentType w)) w
      in w1\<lparr>wrapped := ResponseWriter_WriteHeader statusCode (wrapped w1)\<rparr>)"

definition Flush :: "gRPCWebResponseWriter \<Rightarrow> gRPCWebResponseWriter" where
  "Flush w =
     (let w1 = (case encoder w of
                  Some (Base64Encoder buf) \<Rightarrow>
                    w\<lparr>wrapped := ResponseWriter_Write (encoder_Close buf) (wrapped w),
                      encoder := None\<rparr>
                | _ \<Rightarrow> w)
      in w1\<lparr>wrapped := ResponseWriter_Flush (wrapped w1)\<rparr>)"

text \<open>The bytes a writer's base64 encoder holds back; none without such an encoder.\<close>

definition pending :: "gRPCWebResponseWriter \<Rightarrow> byte list" where
  "pending w = (case encoder w of Some (Base64Encoder buf) \<Rightarrow> buf | _ \<Rightarrow> [])"

section \<open>The wrapped handler\<close>

text \<open>
  The wrapped \<open>http.Handler\<close> is any Go code. What it does to the response writer it is
  given is a sequence of calls: changes of the header map (through \<open>Set\<close>, \<open>Add\<close> and
  \<open>Del\<close>, or by assigning to or deleting a key of the map directly, without
  canonicalisation), \<open>Write\<close>, \<open>WriteHeader\<close> and \<open>Flush\<close>. A handler is a function
  from the request it receives to that sequence.
\<close>

datatype call =
    HeaderSet string string
  | HeaderAdd string string
  | HeaderDel string
  | HeaderAssign string "string list"
  | HeaderDelete string
  | CallWrite "byte list"
  | CallWriteHeader int
  | CallFlush

type_synonym handler = "request \<Rightarrow> call list"

fun header_call :: "call \<Rightarrow> header \<Rightarrow> header" where
  "header_call (HeaderSet k v) h = Set h k v"
| "header_call (HeaderAdd k v) h = Add h k v"
| "header_call (HeaderDel k) h = Del h k"
| "header_call (HeaderAssign k vs) h = AList.update k vs h"
| "header_call (HeaderDelete k) h = AList.delete k h"
| "header_call _ h = h"

fun do_call :: "call \<Rightarrow> gRPCWebResponseWriter \<Rightarrow> gRPCWebResponseWriter" where
  "do_call (CallWrite p) w = Write p w"
| "do_call (CallWriteHeader statusCode) w = WriteHeader statusCode w"
| "do_call CallFlush w = Flush w"
| "do_call c w = set_header (header_call c) w"

fun do_call_direct :: "call \<Rightarrow> response \<Rightarrow> response" where
  "do_call_direct (CallWrite p) r = ResponseWriter_Write p r"
| "do_call_direct (CallWriteHeader statusCode) r = ResponseWriter_WriteHeader statusCode r"
| "do_call_direct CallFlush r = ResponseWriter_Flush r"
| "do_call_direct c r = r\<lparr>resp_header := header_call c (resp_header r)\<rparr>"

fun is_write :: "call \<Rightarrow> bool" where
  "is_write (CallWrite p) = True"
| "is_write _ = False"

fun is_header_call :: "call \<Rightarrow> bool" where
  "is_header_call (CallWrite p) = False"
| "is_header_call (CallWriteHeader statusCode) = False"
| "is_header_call CallFlush = False"
| "is_header_call _ = True"

definition serve :: "call list \<Rightarrow> gRPCWebResponseWriter \<Rightarrow> gRPCWebResponseWriter" where
  "serve calls w = fold do_call calls w"

definition serve_direct :: "call list \<Rightarrow> response \<Rightarrow> response" where
  "serve_direct calls r = fold do_call_direct calls r"

section \<open>Trailers\<close>

text \<open>
  \<open>strings.ToLower\<close> maps every character of the UTF-8 string to its lower case. The
  letters A to Z are lowered. Two characters outside ASCII have an ASCII lower case:
  U+0130 (bytes \<open>C4 B0\<close>) becomes \<open>i\<close> and U+212A (bytes \<open>E2 84 AA\<close>) becomes \<open>k\<close>;
  both byte sequences begin with a lead byte, so wherever they occur they are that
  character. Every other character outside ASCII, and every byte that is not valid UTF-8,
  gives bytes outside ASCII in Go's result; the model keeps such a byte as it is. The
  model's result and Go's are therefore the same string whenever either is ASCII, which
  decides every comparison with an ASCII string such as \<open>trailer\<close>.
\<close>

function ToLower :: "string \<Rightarrow> string" where
  "ToLower [] = []"
| "ToLower (c # cs) =
     (if c = CHR 0xC4 \<and> take 1 cs = [CHR 0xB0] then CHR ''i'' # ToLower (drop 1 cs)
      else if c = CHR 0xE2 \<and> take 2 cs = [CHR 0x84, CHR 0xAA] then CHR ''k'' # ToLower (drop 2 cs)
      else (if isUpperByte c then toLowerByte c else c) # ToLower cs)"
  by pat_completeness auto
termination
  by (relation "measure length") auto

text \<open>
  \<open>Header.Write\<close> writes the map in wire format: the keys in ascending order (Go compares
  strings byte by byte), a key that is not a valid field name (empty, or with a byte that
  is not a token character) left out, and for each value a line \<open>key: value\<close> ended by
  carriage return and line feed, the value with every carriage return and line feed
  replaced by a space and then trimmed of leading and trailing white space.
\<close>

definition crlf :: string where
  "crlf = [CHR 0x0D, CHR 0x0A]"

definition headerNewlineToSpace :: "string \<Rightarrow> string" where
  "headerNewlineToSpace v = map (\<lambda>c. if c = CHR 0x0A \<or> c = CHR 0x0D then CHR '' '' else c) v"

definition isASCIISpace :: "char \<Rightarrow> bool" where
  "isASCIISpace c = (c = CHR '' '' \<or> c = CHR 0x09 \<or> c = CHR 0x0A \<or> c = CHR 0x0D)"

definition TrimString :: "string \<Rightarrow> string" where
  "TrimString s = rev (dropWhile isASCIISpace (rev (dropWhile isASCIISpace s)))"

definition ValidHeaderFieldName :: "string \<Rightarrow> bool" where
  "ValidHeaderFieldName k = (k \<noteq> [] \<and> list_all validHeaderFieldByte k)"

definition header_line :: "string \<Rightarrow> string \<Rightarrow> string" where
  "header_line k v = k @ '': '' @ TrimString (headerNewlineToSpace v) @ crlf"

definition header_lines :: "header \<Rightarrow> string \<Rightarrow> string" where
  "header_lines h k =
     (if ValidHeaderFieldName k
      then concat (map (header_line k) (case map_of h k of None \<Rightarrow> [] | Some vs \<Rightarrow> vs))
      else [])"

definition Header_Write :: "header \<Rightarrow> string" where
  "Header_Write h = concat (map (header_lines h) (sort (remdups (map fst h))))"

text \<open>
  The trailer loop of \<open>ServeHTTP\<close>: the first key of the response header, in iteration
  order, that is \<open>trailer\<close> in lower case names the trailers; each name whose header has
  a non-empty value is \<open>Set\<close> in a new header map.
\<close>

definition collect_trailers :: "header \<Rightarrow> header" where
  "collect_trailers h =
     (case find (\<lambda>(header, val). ToLower header = headerTrailer) h of
        None \<Rightarrow> []
      | Some (header, val) \<Rightarrow>
          fold (\<lambda>trailer trailers.
                  let field = Get h trailer
                  in if field = [] then trailers else Set trailers trailer field)
            val [])"

definition trailer_block :: "header \<Rightarrow> byte list" where
  "trailer_block h = bytes_of (Header_Write (collect_trailers h))"

text \<open>The names that the loop visits: the values of the trailer declaration header.\<close>

definition declared_trailers :: "header \<Rightarrow> string list" where
  "declared_trailers h =
     (case find (\<lambda>(header, val). ToLower header = headerTrailer) h of
        None \<Rightarrow> []
      | Some (header, val) \<Rightarrow> val)"

text \<open>
  The trailer block in the words of the specification, for comparison with the code: one
  line \<open>Name: Value\<close> for each declared name whose header has a non-empty value, in the
  order of declaration.
\<close>

definition declared_order_block :: "header \<Rightarrow> byte list" where
  "declared_order_block h =
     bytes_of (concat (map (\<lambda>trailer. if Get h trailer = [] then []
                                        else trailer @ '': '' @ Get h trailer @ crlf)
                        (declared_trailers h)))"

text \<open>\<open>binary.Write\<close> of a \<open>uint32\<close> in big-endian order.\<close>

definition BigEndian_uint32 :: "32 word \<Rightarrow> byte list" where
  "BigEndian_uint32 v =
     [ucast (drop_bit 24 v), ucast (drop_bit 16 v), ucast (drop_bit 8 v), ucast v]"

text \<open>Reading a big-endian \<open>uint32\<close> back, as the receiver of a frame does.\<close>

definition uint32_of_BigEndian :: "byte list \<Rightarrow> 32 word" where
  "uint32_of_BigEndian bs =
     (case bs of
        [a, b, c, d] \<Rightarrow>
          push_bit 24 (ucast a) OR push_bit 16 (ucast b) OR push_bit 8 (ucast c) OR ucast d
      | _ \<Rightarrow> 0)"

definition is_base64 :: "encoder option \<Rightarrow> bool" where
  "is_base64 e = (case e of Some (Base64Encoder buf) \<Rightarrow> True | _ \<Rightarrow> False)"

text \<open>\<open>bytes.Buffer.WriteTo\<close> calls \<open>Write\<close> only when the buffer is not empty.\<close>

definition Buffer_WriteTo :: "byte list \<Rightarrow> gRPCWebResponseWriter \<Rightarrow> gRPCWebResponseWriter" where
  "Buffer_WriteTo buf w = (if buf = [] then w else Write buf w)"

definition write_trailers :: "gRPCWebResponseWriter \<Rightarrow> gRPCWebResponseWriter" where
  "write_trailers w =
     (let buf = trailer_block (resp_header (wrapped w));
          w1 = Write [push_bit 7 1] w;
          w2 = Write (BigEndian_uint32 (of_nat (length buf))) w1
      in Buffer_WriteTo buf w2)"

section \<open>\<open>ServeHTTP\<close> and \<open>RootHandler\<close>\<close>

text \<open>
  The request half of \<open>grpcWebHandler.ServeHTTP\<close>: the request as the wrapped handler
  receives it, and the content type chosen for the response.
\<close>

definition isTextToken :: "string \<Rightarrow> bool" where
  "isTextToken v = (if v = ContentTypeGRPCWebText \<or> v = ContentTypeGRPCWebTextProto
                    then True else False)"

definition transcode :: "request \<Rightarrow> request \<times> string" where
  "transcode req =
     (let req1 = req\<lparr>ProtoMajor := 2, ProtoMinor := 0\<rparr>;
          req2 = req1\<lparr>Header := Del (Header req1) headerContentLength\<rparr>;
          isTextRequest = isTextToken (Get (Header req2) headerContentType);
          req3 = req2\<lparr>Header := Set (Header req2) headerContentType ContentTypeGRPC\<rparr>;
          isTextResponse = isTextToken (Get (Header req3) headerAccept);
          req4 = req3\<lparr>Header := Set (Header req3) headerTE ''trailers''\<rparr>;
          req5 = req4\<lparr>Header := Set (Header req4) headerGRPCAcceptEncoding
                                    ''identity,deflate,gzip''\<rparr>;
          req6 = (if isTextRequest then req5\<lparr>Body := Base64Body (Body req5)\<rparr> else req5);
          contentType = (if isTextResponse then ContentTypeGRPCWebTextProto
                         else ContentTypeGRPCWebProto)
      in (req6, contentType))"

definition transcode_request :: "request \<Rightarrow> request" where
  "transcode_request req = fst (transcode req)"

definition response_contentType :: "request \<Rightarrow> string" where
  "response_contentType req = snd (transcode req)"

definition new_writer :: "response \<Rightarrow> string \<Rightarrow> gRPCWebResponseWriter" where
  "new_writer resp ct = \<lparr>wrapped = resp, encoder = None, contentType = ct\<rparr>"

text \<open>
  \<open>ServeHTTP_writer\<close> is the wrapping writer when \<open>ServeHTTP\<close> returns from a gRPC-Web
  request; \<open>ServeHTTP\<close> gives the response as the transport has it then, and the request
  as \<open>ServeHTTP\<close> has changed it in place.
\<close>

definition ServeHTTP_writer :: "handler \<Rightarrow> response \<Rightarrow> request \<Rightarrow> gRPCWebResponseWriter" where
  "ServeHTTP_writer h resp req =
     (let req' = transcode_request req;
          w = new_writer resp (response_contentType req)
      in write_trailers (serve (h req') w))"

definition ServeHTTP :: "handler \<Rightarrow> response \<Rightarrow> request \<Rightarrow> response \<times> request" where
  "ServeHTTP h resp req =
     (if \<not> IsGRPCWebRequest req then (serve_direct (h req) resp, req)
      else (wrapped (ServeHTTP_writer h resp req), transcode_request req))"

definition RootHandler :: "handler \<Rightarrow> handler \<Rightarrow> response \<Rightarrow> request \<Rightarrow> response \<times> request" where
  "RootHandler gRPCHandler fallback resp req =
     (if IsGRPCWebRequest req then ServeHTTP gRPCHandler resp req
      else if IsGRPCRequest req then (serve_direct (gRPCHandler req) resp, req)
      else (serve_direct (fallback req) resp, req))"

section \<open>Example requests\<close>

definition overlap_request :: request where
  "overlap_request = \<lparr>ProtoMajor = 2, ProtoMinor = 0,
     Header = [(''Content-Type'', [''application/grpc-web''])], Body = Source [] False\<rparr>"

definition text_request :: request where
  "text_request = \<lparr>ProtoMajor = 1, ProtoMinor = 1,
     Header = [(''Content-Type'', [''application/grpc-web-text'']),
               (''Accept'', [''application/grpc-web'']),
               (''Content-Length'', [''8''])],
     Body = Source (bytes_of ''AAAAAAA='') False\<rparr>"

definition error_header :: header where
  "error_header = [(''Trailer'', [''Grpc-Status'', ''Grpc-Message'']),
                   (''Grpc-Status'', [''13'']),
                   (''Grpc-Message'', [''unexpected EOF''])]"

definition text_accept_request :: request where
  "text_accept_request = \<lparr>ProtoMajor = 1, ProtoMinor = 1,
     Header = [(''Content-Type'', [''application/grpc-web'']),
               (''Accept'', [''application/grpc-web-text''])],
     Body = Source [0, 0, 0, 0, 0] False\<rparr>"

definition empty_response :: response where
  "empty_response = \<lparr>resp_header = [], resp_body = [], resp_status = [], resp_flushes = 0\<rparr>"

text \<open>
  A handler that fails the call: it declares the trailer, flushes the headers and sets the
  status, as the gRPC server does when it reports a status without a message.
\<close>

definition status_handler :: handler where
  "status_handler req =
     [HeaderAdd ''Trailer'' ''Grpc-Status'', CallFlush, HeaderSet ''Grpc-Status'' ''13'']"

definition dotted_header :: header where
  "dotted_header = [(''TRA'' @ [CHR 0xC4, CHR 0xB0] @ ''LER'', [''Grpc-Status'']),
                    (''Grpc-Status'', [''0''])]"

section \<open>Classification\<close>

lemmas const_defs =
  ContentTypeGRPC_def ContentTypeGRPCWeb_def ContentTypeGRPCWebProto_def
  ContentTypeGRPCWebText_def ContentTypeGRPCWebTextProto_def
  headerContentType_def headerContentLength_def headerTE_def
  headerGRPCAcceptEncoding_def headerAccept_def headerTrailer_def

lemma HasPrefix_prefix: "HasPrefix s p = prefix p s"
proof
  assume "HasPrefix s p"
  then have "s = p @ drop (length p) s"
    by (metis HasPrefix_def append_take_drop_id)
  then show "prefix p s"
    by (metis prefixI)
next
  assume "prefix p s"
  then show "HasPrefix s p"
    by (auto simp: HasPrefix_def prefix_def)
qed

text \<open>
  C2. \<open>IsGRPCWebRequest\<close> holds exactly when the value \<open>Header.Get\<close> returns for
  \<open>content-type\<close> is one of the four gRPC-Web tokens; for every other value it is false.
\<close>

theorem IsGRPCWebRequest_iff:
  "IsGRPCWebRequest req =
     (Get (Header req) ''content-type'' \<in>
        {''application/grpc-web'', ''application/grpc-web+proto'',
         ''application/grpc-web-text'', ''application/grpc-web-text+proto''})"
  by (simp add: IsGRPCWebRequest_def Let_def const_defs)

text \<open>
  C3. \<open>IsGRPCRequest\<close> holds exactly when the protocol major version is 2 and the
  \<open>content-type\<close> value begins with \<open>application/grpc\<close>; with major version 1 it is
  false whatever the content-type.
\<close>

theorem IsGRPCRequest_iff:
  "(IsGRPCRequest req =
      (ProtoMajor req = 2 \<and> prefix ''application/grpc'' (Get (Header req) ''content-type'')))
   \<and> (IsGRPCRequest (req\<lparr>ProtoMajor := 1\<rparr>) = False)"
  by (simp add: IsGRPCRequest_def HasPrefix_prefix const_defs)

text \<open>
  C4, as stated: no request satisfies both predicates. It fails for a request over
  HTTP/2 whose content-type is \<open>application/grpc-web\<close>, because that token begins with
  \<open>application/grpc\<close>.
\<close>

theorem classification_overlap:
  "IsGRPCWebRequest overlap_request \<and> IsGRPCRequest overlap_request"
  by code_simp

lemma IsGRPCWebRequest_prefix:
  "IsGRPCWebRequest req \<Longrightarrow> HasPrefix (Get (Header req) headerContentType) ContentTypeGRPC"
  by (auto simp: IsGRPCWebRequest_def Let_def HasPrefix_def const_defs split: if_splits)

text \<open>
  C4, amended: the two predicates hold together exactly for the gRPC-Web requests with
  protocol major version 2, so they never hold together for another major version;
  \<open>RootHandler\<close> tests \<open>IsGRPCWebRequest\<close> first, and a request that satisfies both goes
  to the gRPC-Web handler.
\<close>

theorem classification_overlap_iff:
  "((IsGRPCWebRequest req \<and> IsGRPCRequest req) = (IsGRPCWebRequest req \<and> ProtoMajor req = 2))
   \<and> RootHandler gRPCHandler fallback resp req =
       (if IsGRPCWebRequest req then ServeHTTP gRPCHandler resp req
        else if IsGRPCRequest req then (serve_direct (gRPCHandler req) resp, req)
        else (serve_direct (fallback req) resp, req))"
  using IsGRPCWebRequest_prefix [of req]
  by (auto simp: IsGRPCRequest_def RootHandler_def)

section \<open>Header operations\<close>

lemma canon_consts:
  "CanonicalMIMEHeaderKey ''content-type'' = ''Content-Type''"
  "CanonicalMIMEHeaderKey ''content-length'' = ''Content-Length''"
  "CanonicalMIMEHeaderKey ''te'' = ''Te''"
  "CanonicalMIMEHeaderKey ''grpc-accept-encoding'' = ''Grpc-Accept-Encoding''"
  "CanonicalMIMEHeaderKey ''accept'' = ''Accept''"
  by code_simp+

lemma Get_Set:
  "Get (Set h k v) k' =
     (if CanonicalMIMEHeaderKey k' = CanonicalMIMEHeaderKey k then v else Get h k')"
  by (simp add: Get_def Set_def update_conv' first_value_def)

lemma Get_Del:
  "Get (Del h k) k' =
     (if CanonicalMIMEHeaderKey k' = CanonicalMIMEHeaderKey k then [] else Get h k')"
  by (simp add: Get_def Del_def delete_conv' first_value_def)

lemma map_of_Set:
  "map_of (Set h k v) k' = (if k' = CanonicalMIMEHeaderKey k then Some [v] else map_of h k')"
  by (simp add: Set_def update_conv')

lemma map_of_Del:
  "map_of (Del h k) k' = (if k' = CanonicalMIMEHeaderKey k then None else map_of h k')"
  by (simp add: Del_def delete_conv')

lemma is_closed_Close: "is_closed (Close b)"
  by (induction b) simp_all

section \<open>Base64\<close>

lemma m63: "(0x3F :: 32 word) = mask 6"
  by (simp add: mask_eq_exp_minus_1)

lemma sextet: "(x :: 32 word) AND 0x3F = take_bit 6 x"
  unfolding m63 by (simp add: take_bit_eq_mask)

lemma Suc_Suc_diff2: "\<not> n < 2 \<Longrightarrow> Suc (Suc (n - 2)) = n" "2 \<le> n \<Longrightarrow> Suc (Suc (n - 2)) = n"
  by arith+

lemma unpack_pack:
  "unpack (drop_bit 18 (pack3 a b c) AND 0x3F) (drop_bit 12 (pack3 a b c) AND 0x3F)
          (drop_bit 6 (pack3 a b c) AND 0x3F) (pack3 a b c AND 0x3F) = [a, b, c]"
  unfolding sextet unpack_def pack3_def Let_def
  apply simp
  apply (intro conjI bit_word_eqI)
    apply (simp_all add: bit_simps)
    apply (auto dest: bit_imp_le_length simp: Suc_Suc_diff2)
  done

lemma unpack_pack2:
  "take 2 (unpack (drop_bit 18 (pack3 a b 0) AND 0x3F) (drop_bit 12 (pack3 a b 0) AND 0x3F)
          (drop_bit 6 (pack3 a b 0) AND 0x3F) 0) = [a, b]"
  unfolding sextet unpack_def pack3_def Let_def
  apply simp
  apply (intro conjI bit_word_eqI)
    apply (simp_all add: bit_simps)
    apply (auto dest: bit_imp_le_length simp: Suc_Suc_diff2)
  done

lemma unpack_pack1:
  "take 1 (unpack (drop_bit 18 (pack3 a 0 0) AND 0x3F) (drop_bit 12 (pack3 a 0 0) AND 0x3F)
          0 0) = [a]"
  unfolding sextet unpack_def pack3_def Let_def
  apply simp
  apply (intro conjI bit_word_eqI)
    apply (simp_all add: bit_simps)
    apply (auto dest: bit_imp_le_length simp: Suc_Suc_diff2)
  done

lemma char_of_unat_of_char: "char_of (unat (of_char c :: byte)) = c"
proof -
  have "(of_char c :: byte) = of_nat (of_char c)"
    by (simp add: of_nat_of_char)
  then have "unat (of_char c :: byte) = of_char c mod 256"
    by (simp only: unat_of_nat) simp
  then show ?thesis by simp
qed

lemma unat_and_63: "unat ((v :: 32 word) AND 0x3F) < 64"
proof -
  have "v AND 0x3F \<le> 0x3F" by (rule word_and_le1)
  then show ?thesis by (simp add: word_le_nat_alt)
qed

lemma distinct_encodeStd: "distinct encodeStd"
  by code_simp
lemma length_encodeStd: "length encodeStd = 64"
  by code_simp

lemma index_of_nth: "distinct xs \<Longrightarrow> n < length xs \<Longrightarrow> index_of (xs ! n) xs = Some n"
proof (induction xs arbitrary: n)
  case Nil
  then show ?case by simp
next
  case (Cons x xs)
  then show ?case by (cases n) auto
qed

lemma decodeMap_encode6: "decodeMap (encode6 v) = Some (v AND 0x3F)"
  by (simp add: decodeMap_def encode6_def char_of_unat_of_char index_of_nth
      distinct_encodeStd length_encodeStd unat_and_63)

lemma decodeMap_padChar: "decodeMap padChar = None"
  by code_simp

lemma isNewline_alphabet: "list_all (\<lambda>c. \<not> isNewline (of_char c)) encodeStd"
  by code_simp

lemma isNewline_encode6: "\<not> isNewline (encode6 v)"
  using isNewline_alphabet unat_and_63 [of v]
  by (simp add: list_all_length encode6_def length_encodeStd)

lemma isNewline_padChar: "\<not> isNewline padChar"
  by code_simp

lemma filter_Encode: "filter (\<lambda>b. \<not> isNewline b) (Encode bs) = Encode bs"
  by (induction bs rule: Encode.induct)
     (simp_all add: Let_def isNewline_encode6 isNewline_padChar)

lemma decode_groups_Encode: "decode_groups (Encode bs) = (bs, None)"
proof (induction bs rule: Encode.induct)
  case (1 a b c rest)
  then show ?case
    by (simp add: Let_def decodeMap_encode6 unpack_pack del: unpack_def)
next
  case (2 a b)
  show ?case
    using unpack_pack2 [of a b]
    by (simp add: Let_def decodeMap_encode6 decodeMap_padChar)
next
  case (3 a)
  show ?case
    using unpack_pack1 [of a]
    by (simp add: Let_def decodeMap_encode6 decodeMap_padChar)
next
  case 4
  show ?case by simp
qed

lemma Encode_append: "length xs mod 3 = 0 \<Longrightarrow> Encode (xs @ ys) = Encode xs @ Encode ys"
  by (induction xs rule: Encode.induct) (simp_all add: Let_def)

lemma encode_stream_Encode: "encode_stream buf ps = Encode (buf @ concat ps)"
proof (induction ps arbitrary: buf)
  case Nil
  then show ?case by (simp add: encoder_Close_def)
next
  case (Cons p ps)
  define q where "q = buf @ p"
  define n where "n = length q - length q mod 3"
  have n: "n \<le> length q" "n mod 3 = 0"
    unfolding n_def by (simp_all add: mod_eq_0_iff_dvd dvd_minus_mod)
  have "encode_stream buf (p # ps) = Encode (take n q) @ encode_stream (drop n q) ps"
    by (simp add: encoder_Write_def Let_def q_def n_def)
  also have "\<dots> = Encode (take n q) @ Encode (drop n q @ concat ps)"
    by (simp only: Cons.IH)
  also have "\<dots> = Encode (take n q @ drop n q @ concat ps)"
    using n by (simp add: Encode_append min_def)
  also have "take n q @ drop n q @ concat ps = buf @ concat (p # ps)"
    by (metis append_assoc append_take_drop_id concat.simps(2) q_def)
  finally show ?case .
qed




lemma div3_step: "(5 + n) div 3 = Suc (Suc (Suc n) div 3)" for n :: nat
proof -
  have "5 + n = Suc (Suc n) + 3"
    by simp
  then have "(5 + n) div 3 = (Suc (Suc n) + 3) div 3"
    by (rule arg_cong)
  also have "\<dots> = Suc (Suc n) div 3 + 1"
    by (rule div_add_self2) simp
  finally show ?thesis by simp
qed

lemma length_Encode: "length (Encode bs) = 4 * ((length bs + 2) div 3)"
  by (induction bs rule: Encode.induct) (simp_all add: Let_def div3_step)

lemma chunk_size_bounds:
  assumes "4 \<le> length src"
  shows "4 \<le> chunk_size ns src" "chunk_size ns src \<le> length src" "4 dvd chunk_size ns src"
proof -
  have "1 \<le> length src div 4"
    using assms by (simp add: less_eq_div_iff_mult_less_eq)
  then show "4 \<le> chunk_size ns src"
    by (simp add: chunk_size_def)
  have "4 * (length src div 4) \<le> length src"
    by simp
  then show "chunk_size ns src \<le> length src"
    unfolding chunk_size_def by (meson le_trans min.cobounded1 mult_le_mono2)
  show "4 dvd chunk_size ns src"
    by (simp add: chunk_size_def)
qed

lemma decoder_Read_Encode: "decoder_Read ns (Encode bs) = (bs, None)"
proof (induction "length bs" arbitrary: bs ns rule: less_induct)
  case less
  show ?case
  proof (cases "bs = []")
    case True
    then show ?thesis by (subst decoder_Read.simps) simp
  next
    case False
    define E where "E = Encode bs"
    have lenE: "length E = 4 * ((length bs + 2) div 3)"
      by (simp add: E_def length_Encode)
    have "1 \<le> (length bs + 2) div 3"
      using False by (cases bs) (simp_all add: less_eq_div_iff_mult_less_eq)
    then have E4: "4 \<le> length E"
      using lenE by simp
    obtain g where g: "chunk_size ns E = 4 * g"
      using chunk_size_bounds(3) [OF E4, of ns] by (auto elim: dvdE)
    have g1: "1 \<le> g" and gG: "g \<le> (length bs + 2) div 3"
      using chunk_size_bounds(1,2) [OF E4, of ns] g lenE by simp_all
    define xs where "xs = take (3 * g) bs"
    define ys where "ys = drop (3 * g) bs"
    have bs: "bs = xs @ ys"
      by (simp add: xs_def ys_def)
    have split: "Encode bs = Encode xs @ Encode ys \<and> length (Encode xs) = 4 * g"
    proof (cases "3 * g \<le> length bs")
      case True
      then have lx: "length xs = 3 * g"
        by (simp add: xs_def)
      then have "Encode (xs @ ys) = Encode xs @ Encode ys"
        by (intro Encode_append) simp
      moreover have "length (Encode xs) = 4 * g"
        by (simp add: length_Encode lx)
      ultimately show ?thesis using bs by simp
    next
      case False
      then have "xs = bs" "ys = []"
        by (simp_all add: xs_def ys_def)
      moreover have "length bs + 2 < 3 * g + 3"
        using False by simp
      then have "(length bs + 2) div 3 < g + 1"
        by (simp add: div_less_iff_less_mult)
      then have "(length bs + 2) div 3 \<le> g"
        by simp
      ultimately show ?thesis
        using gG by (simp add: length_Encode)
    qed
    have E: "E = Encode xs @ Encode ys"
      using split by (simp add: E_def)
    have "take (4 * g) (Encode xs @ Encode ys) = Encode xs"
      and "drop (4 * g) (Encode xs @ Encode ys) = Encode ys"
      using split by simp_all
    then have tk: "take (chunk_size ns E) E = Encode xs"
      and dr: "drop (chunk_size ns E) E = Encode ys"
      unfolding g by (simp_all only: E)
    have "length ys < length bs"
      using g1 False by (simp add: ys_def)
    then have IH: "decoder_Read (tl ns) (Encode ys) = (ys, None)"
      by (rule less)
    have "decoder_Read ns E = (xs @ ys, None)"
      using E4 by (subst decoder_Read.simps) (simp add: tk dr decode_groups_Encode IH)
    then show ?thesis
      using bs by (simp add: E_def)
  qed
qed

lemma decoder_ReadAll_Encode: "decoder_ReadAll ns (Encode bs) = (bs, None)"
  by (simp add: decoder_ReadAll_def filter_Encode decoder_Read_Encode)

lemma decoder_ReadAll_unpadded:
  "decoder_ReadAll ns (bytes_of ''AAAAAAA'') = ([0, 0, 0], Some ErrUnexpectedEOF)"
proof -
  have s: "bytes_of ''AAAAAAA'' = [65, 65, 65, 65, 65, 65, 65]"
    by code_simp
  have f: "filter (\<lambda>b. \<not> isNewline b) [65, 65, 65, 65, 65, 65, 65] =
      [65, 65, 65, 65, 65, 65, 65]"
    by (simp add: isNewline_def)
  have c: "chunk_size ns [65, 65, 65, 65, 65, 65, 65] = 4"
    by (simp add: chunk_size_def split: list.splits)
  have d: "decode_groups [65, 65, 65, 65] = ([0, 0, 0], None)"
    by code_simp
  have r: "decoder_Read ms [65, 65, 65] = ([], Some ErrUnexpectedEOF)" for ms
    by (subst decoder_Read.simps) simp
  have "decoder_Read ns [65, 65, 65, 65, 65, 65, 65] = ([0, 0, 0], Some ErrUnexpectedEOF)"
    by (subst decoder_Read.simps) (simp add: c d r del: decode_groups.simps)
  then show ?thesis
    unfolding decoder_ReadAll_def s f .
qed

section \<open>The request transcoder\<close>

text \<open>
  C5. For a gRPC-Web request, the request that the wrapped handler receives has protocol
  version 2.0, no \<open>Content-Length\<close> entry, content-type \<open>application/grpc\<close>, \<open>te\<close>
  \<open>trailers\<close> and \<open>grpc-accept-encoding\<close> \<open>identity,deflate,gzip\<close>; when the original
  content-type was a text token its body is the base64 decoder on the original body, and
  otherwise the body is the original one. The decoder reads as the stream decoding of the
  body below it, whatever the sizes of the reads: a body holding the standard encoding of
  some bytes reads as those bytes, and the unpadded body \<open>AAAAAAA\<close> reads as three
  bytes and then fails with \<open>io.ErrUnexpectedEOF\<close>. Its \<open>Close\<close> closes the original
  body. \<open>ServeHTTP\<close> runs the handler on this request.
\<close>

theorem transcode_request_canonical:
  assumes "IsGRPCWebRequest req"
  shows "ProtoMajor (transcode_request req) = 2
    \<and> ProtoMinor (transcode_request req) = 0
    \<and> map_of (Header (transcode_request req)) ''Content-Length'' = None
    \<and> Get (Header (transcode_request req)) ''content-length'' = []
    \<and> Get (Header (transcode_request req)) ''content-type'' = ''application/grpc''
    \<and> Get (Header (transcode_request req)) ''te'' = ''trailers''
    \<and> Get (Header (transcode_request req)) ''grpc-accept-encoding'' = ''identity,deflate,gzip''
    \<and> Body (transcode_request req) =
        (if Get (Header req) ''content-type'' \<in>
              {''application/grpc-web-text'', ''application/grpc-web-text+proto''}
         then Base64Body (Body req) else Body req)
    \<and> ReadAll (ns # nss) (Base64Body (Source bs closed)) = decoder_ReadAll ns bs
    \<and> ReadAll (ns # nss) (Base64Body (Source (Encode bs) closed)) = (bs, None)
    \<and> ReadAll (ns # nss) (Base64Body (Source (bytes_of ''AAAAAAA'') closed)) =
        ([0, 0, 0], Some ErrUnexpectedEOF)
    \<and> Close (Base64Body (Body req)) = Base64Body (Close (Body req))
    \<and> is_closed (Close (Base64Body (Body req)))
    \<and> ServeHTTP h resp req =
        (wrapped (write_trailers (serve (h (transcode_request req))
                    (new_writer resp (response_contentType req)))),
         transcode_request req)"
  using assms
  by (simp add: transcode_request_def transcode_def Let_def Get_Set Get_Del map_of_Set
      map_of_Del const_defs canon_consts isTextToken_def is_closed_Close ServeHTTP_def
      ServeHTTP_writer_def decoder_ReadAll_Encode decoder_ReadAll_unpadded)

theorem transcode_request_canonical_witness:
  "IsGRPCWebRequest text_request
   \<and> ProtoMajor (transcode_request text_request) = 2
   \<and> Get (Header (transcode_request text_request)) ''content-length'' = []
   \<and> Body (transcode_request text_request) = Base64Body (Body text_request)"
proof -
  have h: "IsGRPCWebRequest text_request" by code_simp
  have ct: "Get (Header text_request) ''content-type'' = ''application/grpc-web-text''"
    by code_simp
  show ?thesis
    using h transcode_request_canonical [OF h] by (simp add: ct)
qed


section \<open>The response writer\<close>

lemma contentType_Write [simp]: "contentType (Write p w) = contentType w"
  by (simp add: Write_def install_encoder_def set_header_def Let_def split: option.splits encoder.splits prod.splits)

lemma contentType_WriteHeader [simp]: "contentType (WriteHeader c w) = contentType w"
  by (simp add: WriteHeader_def set_header_def Let_def)

lemma contentType_Flush [simp]: "contentType (Flush w) = contentType w"
  by (simp add: Flush_def Let_def split: option.splits encoder.splits)

lemma contentType_set_header [simp]: "contentType (set_header f w) = contentType w"
  by (simp add: set_header_def)

lemma contentType_do_call [simp]: "contentType (do_call c w) = contentType w"
  by (cases c) simp_all

lemma contentType_serve [simp]: "contentType (serve calls w) = contentType w"
  unfolding serve_def by (induction calls arbitrary: w) simp_all

lemma serve_append: "serve (xs @ ys) w = serve ys (serve xs w)"
  by (simp add: serve_def)

lemma serve_Cons: "serve (c # cs) w = serve cs (do_call c w)"
  by (simp add: serve_def)

lemma serve_Nil: "serve [] w = w"
  by (simp add: serve_def)

lemma Write_text:
  assumes "contentType w = ContentTypeGRPCWebTextProto" "encoder w \<noteq> Some Wrapped"
  shows "resp_body (wrapped (Write p w)) = resp_body (wrapped w) @ fst (encoder_Write (pending w) p)"
    and "encoder (Write p w) = Some (Base64Encoder (snd (encoder_Write (pending w) p)))"
  using assms
  by (auto simp: Write_def install_encoder_def set_header_def Let_def pending_def
      ResponseWriter_Write_def split: option.splits encoder.splits prod.splits)

lemma Flush_text:
  assumes "encoder w \<noteq> Some Wrapped"
  shows "resp_body (wrapped (Flush w)) = resp_body (wrapped w) @ encoder_Close (pending w)"
  using assms
  by (auto simp: Flush_def Let_def pending_def ResponseWriter_Write_def ResponseWriter_Flush_def
      encoder_Close_def split: option.splits encoder.splits)

lemma serve_writes_text:
  assumes "contentType w = ContentTypeGRPCWebTextProto" "encoder w \<noteq> Some Wrapped"
  shows "resp_body (wrapped (serve (map CallWrite ps @ [CallFlush]) w)) =
           resp_body (wrapped w) @ encode_stream (pending w) ps"
  using assms
proof (induction ps arbitrary: w)
  case Nil
  then show ?case by (simp add: serve_Cons serve_Nil Flush_text)
next
  case (Cons p ps)
  have e: "encoder (Write p w) \<noteq> Some Wrapped"
    using Cons.prems by (simp add: Write_text)
  have pw: "pending (Write p w) = snd (encoder_Write (pending w) p)"
    using Cons.prems by (simp add: Write_text pending_def)
  show ?case
    using Cons.IH [of "Write p w"] Cons.prems e
    by (simp add: serve_Cons Write_text pw split: prod.splits)
qed


text \<open>
  C9. Whatever bytes are written to the stream encoder, in whatever chunks, what it has
  passed on once it is closed decodes with the stream decoder to those bytes, without an
  error, whatever the sizes of the decoder's reads. The encoder is the one the response writer installs in text mode (closed by
  \<open>Flush\<close>), the decoder the one \<open>ServeHTTP\<close> installs on a text request body.
\<close>

theorem base64_roundtrip:
  "decoder_ReadAll ns (encode_stream [] chunks) = (concat chunks, None)
   \<and> resp_body (wrapped (serve (map CallWrite chunks @ [CallFlush])
        (new_writer (resp\<lparr>resp_body := []\<rparr>) ContentTypeGRPCWebTextProto))) =
       encode_stream [] chunks
   \<and> ReadAll (ns # nss) (Base64Body (Source (encode_stream [] chunks) closed)) =
       (concat chunks, None)"
proof -
  have "pending (new_writer (resp\<lparr>resp_body := []\<rparr>) ContentTypeGRPCWebTextProto) = []"
    by (simp add: pending_def new_writer_def)
  then show ?thesis
    using serve_writes_text [of "new_writer (resp\<lparr>resp_body := []\<rparr>) ContentTypeGRPCWebTextProto" chunks]
    by (simp add: encode_stream_Encode decoder_ReadAll_Encode new_writer_def)
qed

lemma response_contentType_eq:
  "response_contentType req =
     (if Get (Header req) ''accept'' \<in>
           {''application/grpc-web-text'', ''application/grpc-web-text+proto''}
      then ''application/grpc-web-text+proto'' else ''application/grpc-web+proto'')"
  by (simp add: response_contentType_def transcode_def Let_def Get_Set Get_Del const_defs
      canon_consts isTextToken_def)

lemma Get_content_type_WriteHeader:
  "Get (resp_header (wrapped (WriteHeader statusCode w))) headerContentType = contentType w"
  by (simp add: WriteHeader_def set_header_def Let_def Get_Set ResponseWriter_WriteHeader_def)

lemma resp_header_body_write [simp]:
  "resp_header (ResponseWriter_Write p r) = resp_header r"
  by (simp add: ResponseWriter_Write_def)

lemma Get_content_type_Write:
  "encoder w = None \<Longrightarrow>
   Get (resp_header (wrapped (Write p w))) headerContentType = contentType w"
  by (simp add: Write_def install_encoder_def set_header_def Let_def Get_Set
      split: prod.splits)

lemma encoder_WriteHeader [simp]: "encoder (WriteHeader c w) = encoder w"
  by (simp add: WriteHeader_def set_header_def Let_def)

lemma serve_WriteHeaders:
  "encoder (serve (map CallWriteHeader codes) w) = encoder w \<and>
   resp_status (wrapped (serve (map CallWriteHeader codes) w)) = resp_status (wrapped w) @ codes"
proof (induction codes arbitrary: w)
  case Nil
  then show ?case by (simp add: serve_Nil)
next
  case (Cons c cs)
  show ?case
    using Cons.IH [of "WriteHeader c w"]
    by (simp add: serve_Cons WriteHeader_def set_header_def Let_def ResponseWriter_WriteHeader_def)
qed

lemma resp_status_Write [simp]:
  "resp_status (wrapped (Write p w)) = resp_status (wrapped w)"
  by (simp add: Write_def install_encoder_def set_header_def Let_def ResponseWriter_Write_def
      split: option.splits encoder.splits prod.splits)

lemma encoder_no_write:
  "encoder w = None \<Longrightarrow> encoder (serve (filter (\<lambda>c. \<not> is_write c) calls) w) = None"
proof (induction calls arbitrary: w)
  case Nil
  then show ?case by (simp add: serve_Nil)
next
  case (Cons c cs)
  have "encoder (do_call c w) = None" if "\<not> is_write c"
    using that Cons.prems
    by (cases c) (simp_all add: set_header_def Flush_def Let_def)
  then show ?case
    using Cons.IH Cons.prems by (simp add: serve_Cons)
qed

text \<open>
  C8. Every \<open>WriteHeader\<close> on the wrapping writer leaves the response content-type at
  the writer's token, whatever the header held before. After any number of status codes
  followed by the first body write on a new writer, the content-type is the token the
  writer was created with, and every status code has reached the wrapped writer. The same
  holds when the handler also changes headers or flushes before that first write.
\<close>

theorem WriteHeader_keeps_contentType:
  "Get (resp_header (wrapped (WriteHeader statusCode w))) ''content-type'' = contentType w
   \<and> Get (resp_header (wrapped (serve (map CallWriteHeader codes @ [CallWrite p])
            (new_writer resp ct)))) ''content-type'' = ct
   \<and> resp_status (wrapped (serve (map CallWriteHeader codes @ [CallWrite p])
            (new_writer resp ct))) = resp_status resp @ codes
   \<and> Get (resp_header (wrapped (serve (filter (\<lambda>c. \<not> is_write c) calls @ [CallWrite p])
            (new_writer resp ct)))) ''content-type'' = ct"
proof -
  let ?w = "serve (map CallWriteHeader codes) (new_writer resp ct)"
  let ?v = "serve (filter (\<lambda>c. \<not> is_write c) calls) (new_writer resp ct)"
  have e: "encoder ?w = None" and s: "resp_status (wrapped ?w) = resp_status resp @ codes"
    using serve_WriteHeaders [of codes "new_writer resp ct"] by (simp_all add: new_writer_def)
  have c: "contentType ?w = ct" "contentType ?v = ct"
    by (simp_all add: new_writer_def)
  have e': "encoder ?v = None"
    by (rule encoder_no_write) (simp add: new_writer_def)
  show ?thesis
    using Get_content_type_WriteHeader [of statusCode w] Get_content_type_Write [OF e, of p]
      Get_content_type_Write [OF e', of p] s c
    by (simp add: serve_append serve_Cons serve_Nil headerContentType_def)
qed


lemma Get_content_type_do_call:
  assumes "\<not> is_header_call c"
    and "encoder w = None \<or> Get (resp_header (wrapped w)) headerContentType = contentType w"
  shows "encoder (do_call c w) = None \<or>
         Get (resp_header (wrapped (do_call c w))) headerContentType = contentType w"
  using assms
  by (cases c)
     (auto simp: Write_def WriteHeader_def Flush_def install_encoder_def set_header_def Let_def
       Get_Set ResponseWriter_Write_def ResponseWriter_WriteHeader_def ResponseWriter_Flush_def
       split: option.splits encoder.splits prod.splits)

lemma Get_content_type_serve:
  assumes "encoder w = None \<or> Get (resp_header (wrapped w)) headerContentType = contentType w"
  shows "encoder (serve (filter (\<lambda>c. \<not> is_header_call c) calls) w) = None \<or>
         Get (resp_header (wrapped (serve (filter (\<lambda>c. \<not> is_header_call c) calls) w)))
           headerContentType = contentType w"
  using assms
proof (induction calls arbitrary: w)
  case Nil
  then show ?case by (simp add: serve_Nil)
next
  case (Cons c cs)
  show ?case
  proof (cases "is_header_call c")
    case True
    then show ?thesis using Cons.IH [OF Cons.prems] by simp
  next
    case False
    have "encoder (do_call c w) = None \<or>
        Get (resp_header (wrapped (do_call c w))) headerContentType = contentType (do_call c w)"
      using Get_content_type_do_call [OF False Cons.prems] by simp
    from Cons.IH [OF this] show ?thesis
      using False by (simp add: serve_Cons)
  qed
qed

lemma Get_content_type_Write_kept:
  assumes "encoder w = None \<or> Get (resp_header (wrapped w)) headerContentType = contentType w"
  shows "Get (resp_header (wrapped (Write p w))) headerContentType = contentType w"
    and "encoder (Write p w) \<noteq> None"
  using assms
  by (auto simp: Write_def install_encoder_def set_header_def Let_def Get_Set
      ResponseWriter_Write_def split: option.splits encoder.splits prod.splits)

lemma Get_content_type_write_trailers:
  assumes "encoder w = None \<or> Get (resp_header (wrapped w)) headerContentType = contentType w"
  shows "Get (resp_header (wrapped (write_trailers w))) headerContentType = contentType w"
proof -
  let ?buf = "trailer_block (resp_header (wrapped w))"
  let ?w1 = "Write [push_bit 7 1] w"
  let ?w2 = "Write (BigEndian_uint32 (of_nat (length ?buf))) ?w1"
  have 1: "encoder ?w1 = None \<or>
      Get (resp_header (wrapped ?w1)) headerContentType = contentType ?w1"
    using Get_content_type_Write_kept(1) [OF assms] by simp
  have 2: "encoder ?w2 = None \<or>
      Get (resp_header (wrapped ?w2)) headerContentType = contentType ?w2"
    using Get_content_type_Write_kept(1) [OF 1] by simp
  have "Get (resp_header (wrapped (Buffer_WriteTo ?buf ?w2))) headerContentType = contentType w"
    using Get_content_type_Write_kept(1) [OF 1] Get_content_type_Write_kept(1) [OF 2]
    by (simp add: Buffer_WriteTo_def)
  then show ?thesis
    by (simp add: write_trailers_def Let_def)
qed

text \<open>
  C10. The writer that \<open>ServeHTTP\<close> creates and hands to the wrapped handler has the
  content type \<open>application/grpc-web-text+proto\<close> when the \<open>accept\<close> value is a text
  token and \<open>application/grpc-web+proto\<close> otherwise, never one of the generic tokens, and
  no call of the handler changes it. It is the value that the first write and every
  \<open>WriteHeader\<close> give the response content-type; a later write sets it again only when no
  encoder is installed. When the handler leaves the header map alone, the response that
  \<open>ServeHTTP\<close> returns for a gRPC-Web request has this content-type.
\<close>

theorem response_contentType_explicit_proto:
  "response_contentType req =
     (if Get (Header req) ''accept'' \<in>
           {''application/grpc-web-text'', ''application/grpc-web-text+proto''}
      then ''application/grpc-web-text+proto'' else ''application/grpc-web+proto'')
   \<and> response_contentType req \<notin> {''application/grpc-web'', ''application/grpc-web-text''}
   \<and> contentType (serve calls (new_writer resp (response_contentType req))) =
       response_contentType req
   \<and> Get (resp_header (wrapped (Write p (new_writer resp (response_contentType req)))))
        ''content-type'' = response_contentType req
   \<and> Get (resp_header (wrapped (WriteHeader statusCode
          (serve calls (new_writer resp (response_contentType req)))))) ''content-type'' =
       response_contentType req
   \<and> Get (resp_header (wrapped (install_encoder
          (serve calls (new_writer resp (response_contentType req)))))) ''content-type'' =
       (if encoder (serve calls (new_writer resp (response_contentType req))) = None
        then response_contentType req
        else Get (resp_header (wrapped (serve calls (new_writer resp (response_contentType req)))))
               ''content-type'')
   \<and> fst (ServeHTTP h resp req) =
       (if IsGRPCWebRequest req then wrapped (ServeHTTP_writer h resp req)
        else serve_direct (h req) resp)
   \<and> ServeHTTP_writer h resp req =
       write_trailers (serve (h (transcode_request req))
         (new_writer resp (response_contentType req)))
   \<and> contentType (ServeHTTP_writer h resp req) =
       (if Get (Header req) ''accept'' \<in>
             {''application/grpc-web-text'', ''application/grpc-web-text+proto''}
        then ''application/grpc-web-text+proto'' else ''application/grpc-web+proto'')
   \<and> Get (resp_header (wrapped
          (ServeHTTP_writer (\<lambda>r. filter (\<lambda>c. \<not> is_header_call c) (h r)) resp req)))
        ''content-type'' =
       (if Get (Header req) ''accept'' \<in>
             {''application/grpc-web-text'', ''application/grpc-web-text+proto''}
        then ''application/grpc-web-text+proto'' else ''application/grpc-web+proto'')"
proof -
  let ?w = "serve calls (new_writer resp (response_contentType req))"
  let ?n = "new_writer resp (response_contentType req)"
  let ?v = "serve (filter (\<lambda>c. \<not> is_header_call c) (h (transcode_request req))) ?n"
  have c: "contentType ?w = response_contentType req"
    by (simp add: new_writer_def)
  have 2: "response_contentType req \<notin> {''application/grpc-web'', ''application/grpc-web-text''}"
    by (simp add: response_contentType_eq)
  have 4: "Get (resp_header (wrapped (Write p (new_writer resp (response_contentType req)))))
        ''content-type'' = response_contentType req"
    using Get_content_type_Write [of "new_writer resp (response_contentType req)" p]
    by (simp add: new_writer_def headerContentType_def)
  have 5: "Get (resp_header (wrapped (WriteHeader statusCode ?w))) ''content-type'' =
       response_contentType req"
    using Get_content_type_WriteHeader [of statusCode ?w] c
    by (simp add: headerContentType_def)
  have 6: "Get (resp_header (wrapped (install_encoder ?w))) ''content-type'' =
       (if encoder ?w = None then response_contentType req
        else Get (resp_header (wrapped ?w)) ''content-type'')"
    using c by (simp add: install_encoder_def set_header_def Get_Set headerContentType_def)
  have 7: "fst (ServeHTTP h resp req) =
       (if IsGRPCWebRequest req then wrapped (ServeHTTP_writer h resp req)
        else serve_direct (h req) resp)"
    by (simp add: ServeHTTP_def)
  have 8: "ServeHTTP_writer h resp req =
       write_trailers (serve (h (transcode_request req)) ?n)"
    by (simp add: ServeHTTP_writer_def Let_def)
  have 9: "contentType (ServeHTTP_writer h resp req) = response_contentType req"
    by (simp add: ServeHTTP_writer_def write_trailers_def Buffer_WriteTo_def Let_def
        new_writer_def)
  have "encoder ?n = None"
    by (simp add: new_writer_def)
  then have "encoder ?v = None \<or>
      Get (resp_header (wrapped ?v)) headerContentType = contentType ?n"
    by (intro Get_content_type_serve) simp
  then have "encoder ?v = None \<or>
      Get (resp_header (wrapped ?v)) headerContentType = contentType ?v"
    by simp
  then have "Get (resp_header (wrapped (write_trailers ?v))) headerContentType = contentType ?v"
    by (rule Get_content_type_write_trailers)
  then have 10: "Get (resp_header (wrapped
          (ServeHTTP_writer (\<lambda>r. filter (\<lambda>c. \<not> is_header_call c) (h r)) resp req)))
        ''content-type'' = response_contentType req"
    by (simp add: ServeHTTP_writer_def Let_def headerContentType_def new_writer_def)
  show ?thesis
    using response_contentType_eq [of req] c 2 4 5 6 7 8 9 10
    by (intro conjI) simp_all
qed

section \<open>Trailers\<close>

text \<open>
  C7, as stated: the lines appear in the order the trailer names were declared. With
  \<open>Grpc-Status\<close> declared before \<open>Grpc-Message\<close> the block has the
  \<open>Grpc-Message\<close> line first.
\<close>

theorem trailer_order_counterexample:
  "trailer_block error_header =
     bytes_of (''Grpc-Message: unexpected EOF'' @ crlf @ ''Grpc-Status: 13'' @ crlf)
   \<and> declared_order_block error_header =
     bytes_of (''Grpc-Status: 13'' @ crlf @ ''Grpc-Message: unexpected EOF'' @ crlf)
   \<and> trailer_block error_header \<noteq> declared_order_block error_header"
  by code_simp

lemma of_char_ge: "(c \<le> d) = ((of_char c :: nat) \<le> of_char d)" for c d :: char
  by (simp add: less_eq_char_def)

lemma isUpper_toUpper:
  assumes "isLowerByte x"
  shows "isUpperByte (toUpperByte x) \<and> \<not> isLowerByte (toUpperByte x)"
proof -
  have b: "97 \<le> (of_char x :: nat)" "(of_char x :: nat) \<le> 122"
    using assms by (simp_all add: isLowerByte_def of_char_ge)
  then have "(of_char x - 32 :: nat) mod 256 = of_char x - 32"
    by simp
  moreover have "65 \<le> of_char x - (32::nat) \<and> of_char x - (32::nat) \<le> 90"
    using b by linarith
  ultimately show ?thesis
    by (simp add: isUpperByte_def isLowerByte_def toUpperByte_def of_char_ge)
qed

lemma isLower_toLower:
  "isUpperByte x \<Longrightarrow> isLowerByte (toLowerByte x) \<and> \<not> isUpperByte (toLowerByte x)"
  unfolding isLowerByte_def isUpperByte_def toLowerByte_def of_char_ge
  by simp

lemma not_lower_and_upper: "isLowerByte x \<Longrightarrow> \<not> isUpperByte x"
  unfolding isLowerByte_def isUpperByte_def of_char_ge
  by simp

lemma canonicalise_idem: "canonicalise u (canonicalise u s) = canonicalise u s"
proof (induction s arbitrary: u)
  case Nil
  then show ?case by simp
next
  case (Cons x xs)
  then show ?case
    using isUpper_toUpper [of x] isLower_toLower [of x] not_lower_and_upper [of x]
    by (auto simp: Let_def)
qed

lemma valid_canonicalise:
  "list_all validHeaderFieldByte s \<Longrightarrow> list_all validHeaderFieldByte (canonicalise u s)"
proof (induction s arbitrary: u)
  case Nil
  then show ?case by simp
next
  case (Cons x xs)
  then show ?case
    using isUpper_toUpper [of x] isLower_toLower [of x]
    by (auto simp: Let_def validHeaderFieldByte_def)
qed

lemma CanonicalMIMEHeaderKey_idem:
  "CanonicalMIMEHeaderKey (CanonicalMIMEHeaderKey s) = CanonicalMIMEHeaderKey s"
  by (simp add: CanonicalMIMEHeaderKey_def canonicalise_idem valid_canonicalise)

lemma Get_canonical: "Get h (CanonicalMIMEHeaderKey t) = Get h t"
  by (simp add: Get_def CanonicalMIMEHeaderKey_idem)

lemma collect_trailers_fold:
  "collect_trailers h =
     fold (\<lambda>trailer trailers. Set trailers trailer (Get h trailer))
       (filter (\<lambda>t. Get h t \<noteq> []) (declared_trailers h)) []"
proof -
  have "fold (\<lambda>trailer trailers.
                  let field = Get h trailer
                  in if field = [] then trailers else Set trailers trailer field) val tr =
        fold (\<lambda>trailer trailers. Set trailers trailer (Get h trailer))
          (filter (\<lambda>t. Get h t \<noteq> []) val) tr" for val tr
    by (induction val arbitrary: tr) (simp_all add: Let_def)
  then show ?thesis
    by (simp add: collect_trailers_def declared_trailers_def split: option.splits prod.splits)
qed

lemma keys_fold_Set:
  "set (map fst (fold (\<lambda>t tr. Set tr t (g t)) ns tr)) =
     set (map fst tr) \<union> CanonicalMIMEHeaderKey ` set ns"
  by (induction ns arbitrary: tr) (auto simp: Set_def dom_update)

lemma distinct_fold_Set:
  "distinct (map fst tr) \<Longrightarrow> distinct (map fst (fold (\<lambda>t tr. Set tr t (g t)) ns tr))"
  by (induction ns arbitrary: tr) (simp_all add: Set_def distinct_update)

lemma map_of_fold_Set:
  "map_of (fold (\<lambda>t tr. Set tr t (Get h t)) ns tr) k =
     (if k \<in> CanonicalMIMEHeaderKey ` set ns then Some [Get h k] else map_of tr k)"
proof (induction ns arbitrary: tr)
  case Nil
  then show ?case by simp
next
  case (Cons n ns)
  show ?case
    using Get_canonical [of h n]
    by (auto simp: Cons.IH map_of_Set)
qed

text \<open>
  C7, amended: the trailer block has one line for each distinct canonical form of a
  declared name whose header has a non-empty value, in ascending byte order of these
  canonical names; the line is the canonical name, a colon and a space, the header's first
  value with line breaks replaced by spaces and trimmed, and a line break. A name that is
  not a valid field name gives no line, and names whose header is missing or empty are
  skipped.
\<close>

theorem trailer_block_sorted:
  "trailer_block h =
     bytes_of (concat (map (\<lambda>k. if ValidHeaderFieldName k then header_line k (Get h k) else [])
       (sort (remdups (map CanonicalMIMEHeaderKey
          (filter (\<lambda>t. Get h t \<noteq> []) (declared_trailers h)))))))"
proof -
  define ns where "ns = filter (\<lambda>t. Get h t \<noteq> []) (declared_trailers h)"
  define tr where "tr = fold (\<lambda>t tr. Set tr t (Get h t)) ns []"
  have tr: "collect_trailers h = tr"
    by (simp add: collect_trailers_fold tr_def ns_def)
  have keys: "set (map fst tr) = CanonicalMIMEHeaderKey ` set ns"
    unfolding tr_def using keys_fold_Set [of "\<lambda>t. Get h t" ns "[]"] by simp
  have "sort (remdups (map fst tr)) = sorted_list_of_set (set (map fst tr))"
    by (simp only: sorted_list_of_set_sort_remdups)
  also have "\<dots> = sort (remdups (map CanonicalMIMEHeaderKey ns))"
    by (simp only: keys sorted_list_of_set_sort_remdups flip: set_map)
  finally have order: "sort (remdups (map fst tr)) = sort (remdups (map CanonicalMIMEHeaderKey ns))" .
  have lines: "header_lines tr k =
      (if ValidHeaderFieldName k then header_line k (Get h k) else [])"
    if "k \<in> set (sort (remdups (map CanonicalMIMEHeaderKey ns)))" for k
    using that by (simp add: header_lines_def tr_def map_of_fold_Set)
  have "Header_Write tr =
      concat (map (header_lines tr) (sort (remdups (map CanonicalMIMEHeaderKey ns))))"
    by (simp only: Header_Write_def order)
  also have "\<dots> = concat (map (\<lambda>k. if ValidHeaderFieldName k then header_line k (Get h k) else [])
      (sort (remdups (map CanonicalMIMEHeaderKey ns))))"
    using lines by (intro arg_cong [where f = concat] map_cong refl) blast
  finally show ?thesis
    by (simp only: trailer_block_def tr ns_def)
qed

text \<open>
  The trailer declaration is found under any key that \<open>strings.ToLower\<close> maps to
  \<open>trailer\<close>, which includes a key spelt with U+0130.
\<close>

lemma ToLower_dotted: "ToLower (''TRA'' @ [CHR 0xC4, CHR 0xB0] @ ''LER'') = ''trailer''"
  by code_simp

lemma trailer_block_dotted: "trailer_block dotted_header = bytes_of (''Grpc-Status: 0'' @ crlf)"
  by code_simp

section \<open>The trailer frame\<close>

text \<open>
  In binary mode the response body is what the handler wrote, followed by the marker byte,
  the length of the trailer block as a big-endian \<open>uint32\<close> and the block. The length
  field reads back as the block's length when that is below \<open>2 ^ 32\<close>.
\<close>

lemma uint32_of_BigEndian_inverse: "uint32_of_BigEndian (BigEndian_uint32 v) = v"
proof -
  have "push_bit 24 (ucast (ucast (drop_bit 24 v) :: byte)) OR
        push_bit 16 (ucast (ucast (drop_bit 16 v) :: byte)) OR
        push_bit 8 (ucast (ucast (drop_bit 8 v) :: byte)) OR
        ucast (ucast v :: byte) = v"
  proof (rule bit_word_eqI)
    fix n
    assume "n < LENGTH(32)"
    then consider "n < 8" | "8 \<le> n" "n < 16" | "16 \<le> n" "n < 24" | "24 \<le> n" "n < 32"
      by fastforce
    then show "bit (push_bit 24 (ucast (ucast (drop_bit 24 v) :: byte)) OR
        push_bit 16 (ucast (ucast (drop_bit 16 v) :: byte)) OR
        push_bit 8 (ucast (ucast (drop_bit 8 v) :: byte)) OR
        (ucast (ucast v :: byte) :: 32 word)) n = bit v n"
      by cases (auto simp: bit_simps)
  qed
  then show ?thesis
    by (simp add: uint32_of_BigEndian_def BigEndian_uint32_def)
qed

lemma unat_length_uint32: "n < 2 ^ 32 \<Longrightarrow> unat (of_nat n :: 32 word) = n"
  by (simp add: unat_of_nat)

lemma is_base64_do_call:
  "contentType w \<noteq> ContentTypeGRPCWebTextProto \<Longrightarrow> \<not> is_base64 (encoder w) \<Longrightarrow>
   \<not> is_base64 (encoder (do_call c w))"
  by (cases c)
     (auto simp: is_base64_def Write_def WriteHeader_def Flush_def install_encoder_def
       set_header_def Let_def split: option.splits encoder.splits prod.splits)

lemma is_base64_serve:
  "contentType w \<noteq> ContentTypeGRPCWebTextProto \<Longrightarrow> \<not> is_base64 (encoder w) \<Longrightarrow>
   \<not> is_base64 (encoder (serve calls w))"
proof (induction calls arbitrary: w)
  case Nil
  then show ?case by (simp add: serve_Nil)
next
  case (Cons c cs)
  then show ?case
    using is_base64_do_call [of w c] by (simp add: serve_Cons)
qed

lemma Write_binary:
  assumes "contentType w \<noteq> ContentTypeGRPCWebTextProto" "\<not> is_base64 (encoder w)"
  shows "resp_body (wrapped (Write p w)) = resp_body (wrapped w) @ p"
    and "\<not> is_base64 (encoder (Write p w))"
  using assms
  by (auto simp: is_base64_def Write_def install_encoder_def set_header_def Let_def
      ResponseWriter_Write_def split: option.splits encoder.splits prod.splits)

lemma write_trailers_binary:
  assumes "contentType w \<noteq> ContentTypeGRPCWebTextProto" "\<not> is_base64 (encoder w)"
  shows "resp_body (wrapped (write_trailers w)) =
     resp_body (wrapped w) @ [0x80]
       @ BigEndian_uint32 (of_nat (length (trailer_block (resp_header (wrapped w)))))
       @ trailer_block (resp_header (wrapped w))"
proof -
  let ?buf = "trailer_block (resp_header (wrapped w))"
  let ?w1 = "Write [push_bit 7 1] w"
  let ?w2 = "Write (BigEndian_uint32 (of_nat (length ?buf))) ?w1"
  have 1: "resp_body (wrapped ?w1) = resp_body (wrapped w) @ [0x80]"
    and e1: "\<not> is_base64 (encoder ?w1)"
    using Write_binary [OF assms, of "[push_bit 7 1]"] by simp_all
  have c1: "contentType ?w1 \<noteq> ContentTypeGRPCWebTextProto"
    using assms by simp
  have 2: "resp_body (wrapped ?w2) =
      resp_body (wrapped ?w1) @ BigEndian_uint32 (of_nat (length ?buf))"
    and e2: "\<not> is_base64 (encoder ?w2)"
    using Write_binary [OF c1 e1] by simp_all
  have c2: "contentType ?w2 \<noteq> ContentTypeGRPCWebTextProto"
    using assms by simp
  have 3: "resp_body (wrapped (Buffer_WriteTo ?buf ?w2)) = resp_body (wrapped ?w2) @ ?buf"
    using Write_binary(1) [OF c2 e2, of ?buf] by (simp add: Buffer_WriteTo_def)
  show ?thesis
    using 1 2 3 by (simp add: write_trailers_def Let_def)
qed

lemma ServeHTTP_binary_frame:
  assumes "IsGRPCWebRequest req"
    and "response_contentType req = ContentTypeGRPCWebProto"
  shows "resp_body (fst (ServeHTTP h resp req)) =
     resp_body (wrapped (serve (h (transcode_request req)) (new_writer resp (response_contentType req))))
       @ [0x80]
       @ BigEndian_uint32 (of_nat (length (trailer_block (resp_header (wrapped
            (serve (h (transcode_request req)) (new_writer resp (response_contentType req))))))))
       @ trailer_block (resp_header (wrapped
            (serve (h (transcode_request req)) (new_writer resp (response_contentType req)))))"
proof -
  let ?w = "serve (h (transcode_request req)) (new_writer resp (response_contentType req))"
  have ne: "ContentTypeGRPCWebProto \<noteq> ContentTypeGRPCWebTextProto"
    by (simp add: const_defs)
  have c: "contentType ?w \<noteq> ContentTypeGRPCWebTextProto"
    using assms(2) ne by (simp add: new_writer_def)
  have "\<not> is_base64 (encoder (new_writer resp (response_contentType req)))"
    by (simp add: is_base64_def new_writer_def)
  then have e: "\<not> is_base64 (encoder ?w)"
    using is_base64_serve [of "new_writer resp (response_contentType req)"] assms(2) ne
    by (simp add: new_writer_def)
  show ?thesis
    using write_trailers_binary [OF c e] assms(1)
    by (simp add: ServeHTTP_def ServeHTTP_writer_def Let_def)
qed

text \<open>
  C1 on a text-mode response. The request accepts \<open>application/grpc-web-text\<close> and
  the handler reports status 13 without data, so the trailer frame has 5 + 17 = 22 bytes.
  \<open>ServeHTTP\<close> writes them to the base64 encoder and returns without closing it: the
  transport has received the encoding of the first 21 bytes only, and the last byte of the
  trailer block is still held by the encoder. The frame in the response body declares 17
  bytes and has 16.
\<close>

theorem trailer_frame_truncated:
  "IsGRPCWebRequest text_accept_request
   \<and> trailer_block (resp_header (fst (ServeHTTP status_handler empty_response text_accept_request)))
       = bytes_of (''Grpc-Status: 13'' @ crlf)
   \<and> resp_body (fst (ServeHTTP status_handler empty_response text_accept_request))
       = bytes_of ''gAAAABFHcnBjLVN0YXR1czogMTMN''
   \<and> decoder_ReadAll ns
        (resp_body (fst (ServeHTTP status_handler empty_response text_accept_request)))
       = ([0x80, 0, 0, 0, 17] @ bytes_of (''Grpc-Status: 13'' @ [CHR 0x0D]), None)
   \<and> pending (ServeHTTP_writer status_handler empty_response text_accept_request) = [0x0A]"
proof -
  let ?resp = "fst (ServeHTTP status_handler empty_response text_accept_request)"
  let ?frame = "[0x80, 0, 0, 0, 17] @ bytes_of (''Grpc-Status: 13'' @ [CHR 0x0D])"
  have r: "IsGRPCWebRequest text_accept_request"
    by code_simp
  have t: "trailer_block (resp_header ?resp) = bytes_of (''Grpc-Status: 13'' @ crlf)"
    by code_simp
  have b: "resp_body ?resp = bytes_of ''gAAAABFHcnBjLVN0YXR1czogMTMN''"
    by code_simp
  have e: "bytes_of ''gAAAABFHcnBjLVN0YXR1czogMTMN'' = Encode ?frame"
    by code_simp
  have d: "decoder_ReadAll ns (resp_body ?resp) = (?frame, None)"
    unfolding b e by (rule decoder_ReadAll_Encode)
  have p: "pending (ServeHTTP_writer status_handler empty_response text_accept_request) = [0x0A]"
    by code_simp
  show ?thesis
    by (intro conjI; (rule r t b d p))
qed


end
